theory Spec2Isabelle
  imports Complex_Main "HOL-Library.AList"
begin

section \<open>Python values shared by the modules\<close>

text \<open>
  The exceptions the four modules raise or catch.  The string is the message the source
  passes to the exception.  \<open>StopIteration\<close> is what \<open>next\<close> raises on an
  exhausted generator; \<open>OtherError\<close> stands for any exception of a callee.
\<close>

datatype error =
    RuntimeError string
  | TypeError string
  | NotImplementedError string
  | AttributeError string
  | StopIteration
  | OtherError string

section \<open>profiling/utils.py: Runnable\<close>

text \<open>
  A generator object, as far as \<open>Runnable\<close> observes it: what the next call of
  \<open>next\<close> does.  \<open>Done\<close>: the body returns, and \<open>next\<close> raises
  \<open>StopIteration\<close>.  \<open>Yield v g\<close>: the body yields \<open>v\<close> (Python's
  \<open>None\<close> is \<open>None\<close>, any other value \<open>Some x\<close>) and goes on as \<open>g\<close>.
  \<open>Raise e\<close>: \<open>next\<close> raises \<open>e\<close>.  This is the exception the caller of
  \<open>next\<close> receives, not the one the body raises: they differ for a body that raises
  \<open>StopIteration\<close>, where from Python 3.7 on \<open>next\<close> raises \<open>RuntimeError\<close>
  (the generator is \<open>Raise (RuntimeError m)\<close>), and before that \<open>StopIteration\<close>
  (the generator is \<open>Raise StopIteration\<close>, which \<open>next\<close> does not tell from
  \<open>Done\<close>).
\<close>

datatype 'v gen =
    Done
  | Yield "'v option" "'v gen"
  | Raise error

text \<open>
  \<open>next(g)\<close>: the outcome and the generator afterwards (the object is advanced in
  place).  A generator that has raised is finished.
\<close>

fun next_gen :: "'v gen \<Rightarrow> (error + 'v option) \<times> 'v gen" where
  "next_gen Done = (Inl StopIteration, Done)"
| "next_gen (Yield v g) = (Inr v, g)"
| "next_gen (Raise e) = (Inl e, Done)"

text \<open>
  The generators of \<open>Runnable.run\<close> (\<open>raise NotImplementedError\<close>, then an
  unreachable \<open>yield\<close>) and of \<open>Timer.run\<close> (a bare \<open>yield\<close>).
\<close>

definition Runnable_run :: "'v gen" where
  "Runnable_run = Raise (NotImplementedError ''Implement run()'')"

definition Timer_run :: "'v gen" where
  "Timer_run = Yield None Done"

text \<open>
  \<open>class Runnable\<close>: the attribute \<open>_running\<close> is \<open>None\<close> or the generator
  that \<open>run\<close> returned.  Subclasses are record extensions.
\<close>

record 'v runnable =
  running :: "'v gen option"

definition is_running :: "('v, 'm) runnable_scheme \<Rightarrow> bool" where
  "is_running self = (running self \<noteq> None)"

text \<open>
  \<open>Runnable.start\<close>.  The argument \<open>run\<close> is the generator object that the call
  \<open>self.run(*args, **kwargs)\<close> creates (calling a generator function executes none of
  its body).  The result is the outcome (\<open>Inl\<close> the exception raised) and the
  instance afterwards: the assignment to \<open>_running\<close> precedes \<open>next\<close>, so it
  survives an exception.
\<close>

definition Runnable_start ::
  "'v gen \<Rightarrow> ('v, 'm) runnable_scheme \<Rightarrow> (error + unit) \<times> ('v, 'm) runnable_scheme" where
  "Runnable_start run self =
     (if is_running self then (Inl (RuntimeError ''Already started''), self)
      else
        (case next_gen run of
           (Inl StopIteration, g) \<Rightarrow>
             (Inl (TypeError ''run() must yield just one time''), self\<lparr>running := Some g\<rparr>)
         | (Inl e, g) \<Rightarrow> (Inl e, self\<lparr>running := Some g\<rparr>)
         | (Inr yielded, g) \<Rightarrow>
             (if yielded \<noteq> None
              then (Inl (TypeError ''run() must yield without value''), self\<lparr>running := Some g\<rparr>)
              else (Inr (), self\<lparr>running := Some g\<rparr>))))"

text \<open>
  \<open>Runnable.stop\<close>: \<open>_running\<close> is reset before the generator is resumed.
\<close>

definition Runnable_stop ::
  "('v, 'm) runnable_scheme \<Rightarrow> (error + unit) \<times> ('v, 'm) runnable_scheme" where
  "Runnable_stop self =
     (case running self of
        None \<Rightarrow> (Inl (RuntimeError ''Not started''), self)
      | Some g \<Rightarrow>
          (case fst (next_gen g) of
             Inl StopIteration \<Rightarrow> (Inr (), self\<lparr>running := None\<rparr>)
           | Inl e \<Rightarrow> (Inl e, self\<lparr>running := None\<rparr>)
           | Inr yielded \<Rightarrow>
               (Inl (TypeError ''run() must yield just one time''), self\<lparr>running := None\<rparr>)))"

text \<open>A run of \<open>start\<close> calls, each with its own generator; the outcomes in order.\<close>

fun start_many ::
  "'v gen list \<Rightarrow> ('v, 'm) runnable_scheme \<Rightarrow> (error + unit) list \<times> ('v, 'm) runnable_scheme" where
  "start_many [] self = ([], self)"
| "start_many (run # runs) self =
     (case Runnable_start run self of
        (r, self') \<Rightarrow> (case start_many runs self' of (rs, self'') \<Rightarrow> (r # rs, self'')))"

text \<open>The sequence \<open>start(); stop()\<close>: an exception of \<open>start\<close> ends it.\<close>

definition start_then_stop ::
  "'v gen \<Rightarrow> ('v, 'm) runnable_scheme \<Rightarrow> (error + unit) \<times> ('v, 'm) runnable_scheme" where
  "start_then_stop run self =
     (case Runnable_start run self of
        (Inl e, self') \<Rightarrow> (Inl e, self')
      | (Inr u, self') \<Rightarrow> Runnable_stop self')"

section \<open>profiling/utils.py: the function \<open>frame_stack\<close>\<close>

text \<open>
  A frame object: its identity (what \<open>is\<close> compares), its code object and its
  caller \<open>f_back\<close> (\<open>None\<close> at the end of the chain).
\<close>

type_synonym code = nat

datatype frame = Frame (f_ident: nat) (f_code: code) (f_back: "frame option")

text \<open>\<open>frame is base_frame\<close>, for a frame that is not \<open>None\<close>.\<close>

fun is_frame :: "frame \<Rightarrow> frame option \<Rightarrow> bool" where
  "is_frame f None = False"
| "is_frame f (Some b) = (f_ident f = f_ident b)"

text \<open>
  The \<open>while\<close> loop of \<open>frame_stack\<close>, in the definition written in Python
  (the one in force when the \<open>speedup\<close> extension is absent); \<open>frames\<close> is the
  deque, leftmost element first, so \<open>appendleft\<close> is \<open>#\<close>.
\<close>

fun frame_stack_loop ::
  "frame option \<Rightarrow> frame option \<Rightarrow> code set \<Rightarrow> frame list \<Rightarrow> frame list" where
  "frame_stack_loop None base_frame ignoring_codes frames = frames"
| "frame_stack_loop (Some (Frame i c b)) base_frame ignoring_codes frames =
     (if is_frame (Frame i c b) base_frame then frames
      else frame_stack_loop b base_frame ignoring_codes
             (if c \<notin> ignoring_codes then Frame i c b # frames else frames))"

definition frame_stack :: "frame option \<Rightarrow> frame option \<Rightarrow> code set \<Rightarrow> frame list" where
  "frame_stack frame base_frame ignoring_codes =
     frame_stack_loop frame base_frame ignoring_codes []"

text \<open>The chain of callers of a frame, the frame itself first.\<close>

fun chain :: "frame option \<Rightarrow> frame list" where
  "chain None = []"
| "chain (Some (Frame i c b)) = Frame i c b # chain b"

section \<open>profiling/utils.py: deferral\<close>

text \<open>
  A deferred call \<open>(f, a, k)\<close> is the closed call \<open>f(*a, **k)\<close>: it acts on the
  state of the process (handlers, timers, callbacks: the type \<open>'s\<close>) and returns or
  raises.  The state it leaves is kept in both cases.
\<close>

type_synonym 's action = "'s \<Rightarrow> error option \<times> 's"

text \<open>
  The body of the \<open>with\<close> block, statement by statement: \<open>Defer a\<close> is the call
  \<open>defer(f, *a, **k)\<close>, \<open>Call a\<close> any other statement.
\<close>

datatype 's stmt = Defer "'s action" | Call "'s action"

text \<open>
  The body runs until it ends or a statement raises; \<open>defer\<close> appends to the list
  \<open>deferred\<close>.  The result is the pending exception, the list and the state.
\<close>

fun run_body ::
  "'s stmt list \<Rightarrow> 's action list \<Rightarrow> 's \<Rightarrow> error option \<times> 's action list \<times> 's" where
  "run_body [] deferred s = (None, deferred, s)"
| "run_body (Defer a # body) deferred s = run_body body (deferred @ [a]) s"
| "run_body (Call a # body) deferred s =
     (case a s of
        (Some e, s') \<Rightarrow> (Some e, deferred, s')
      | (None, s') \<Rightarrow> run_body body deferred s')"

text \<open>
  The loop of the \<open>finally\<close> clause: \<open>deferred.pop()\<close> takes the last element, and
  an exception of the call leaves the loop.
\<close>

function run_deferred :: "'s action list \<Rightarrow> 's \<Rightarrow> error option \<times> 's" where
  "run_deferred deferred s =
     (if deferred = [] then (None, s)
      else
        (case (last deferred) s of
           (Some e, s') \<Rightarrow> (Some e, s')
         | (None, s') \<Rightarrow> run_deferred (butlast deferred) s'))"
  by pat_completeness auto
termination
  by (relation "measure (\<lambda>(deferred, s). length deferred)") auto

declare run_deferred.simps [simp del]

text \<open>
  An exception \<open>e\<close> that leaves the \<open>finally\<close> clause leaves the generator
  that \<open>contextmanager\<close> wraps.  Any exception but \<open>StopIteration\<close> propagates
  out of the \<open>with\<close> statement.  \<open>StopIteration\<close> depends on the interpreter:
  where a generator turns it into \<open>RuntimeError\<close> (Python 3.7 on:
  \<open>generator_stop\<close>), that error propagates; before, \<open>contextmanager\<close> takes
  it for the end of the generator, and the \<open>with\<close> statement raises nothing, the
  pending exception of the body included.
\<close>

definition leave_finally :: "bool \<Rightarrow> error \<Rightarrow> error option" where
  "leave_finally generator_stop e =
     (if e = StopIteration
      then (if generator_stop then Some (RuntimeError ''generator raised StopIteration'')
            else None)
      else Some e)"

text \<open>
  \<open>with deferral() as defer: body\<close>.  An exception of the \<open>finally\<close> clause
  replaces the pending one, which otherwise propagates once the clause is done.
\<close>

definition deferral :: "bool \<Rightarrow> 's stmt list \<Rightarrow> 's \<Rightarrow> error option \<times> 's" where
  "deferral generator_stop body s =
     (case run_body body [] s of
        (pending, deferred, s1) \<Rightarrow>
          (case run_deferred deferred s1 of
             (Some e, s2) \<Rightarrow> (leave_finally generator_stop e, s2)
           | (None, s2) \<Rightarrow> (pending, s2)))"

text \<open>
  For the statements below.  Of a list of statements: the actions it registers when every
  statement returns, whether every statement returns when they run in order, and the
  state they leave then.  Of a list of actions: running them in order with exceptions
  ignored, and whether each returns when they run in order.
\<close>

fun calls_return :: "'s stmt list \<Rightarrow> 's \<Rightarrow> bool" where
  "calls_return [] s = True"
| "calls_return (Defer a # body) s = calls_return body s"
| "calls_return (Call a # body) s = (fst (a s) = None \<and> calls_return body (snd (a s)))"

fun after_calls :: "'s stmt list \<Rightarrow> 's \<Rightarrow> 's" where
  "after_calls [] s = s"
| "after_calls (Defer a # body) s = after_calls body s"
| "after_calls (Call a # body) s = after_calls body (snd (a s))"

fun registered :: "'s stmt list \<Rightarrow> 's action list" where
  "registered [] = []"
| "registered (Defer a # body) = a # registered body"
| "registered (Call a # body) = registered body"

fun exec_all :: "'s action list \<Rightarrow> 's \<Rightarrow> 's" where
  "exec_all [] s = s"
| "exec_all (a # as) s = exec_all as (snd (a s))"

fun all_return :: "'s action list \<Rightarrow> 's \<Rightarrow> bool" where
  "all_return [] s = True"
| "all_return (a # as) s = (fst (a s) = None \<and> all_return as (snd (a s)))"

section \<open>profiling/tracing/timers.py: ContextualTimer\<close>

text \<open>
  \<open>_contextual_times\<close> maps a context to the pair \<open>(paused_at, resumed_at)\<close>;
  \<open>resumed_at\<close> is \<open>None\<close> for a paused context.  The module imports
  \<open>clock\<close> from \<open>utils\<close>; each method reads it at most once, and the reading is
  the argument \<open>clock\<close>.  Readings are exact numbers here.
\<close>

record ('v, 'c) contextual_timer = "'v runnable" +
  contextual_times :: "'c \<rightharpoonup> real \<times> real option"

text \<open>\<open>ContextualTimer.__new__\<close>.\<close>

definition ContextualTimer_new :: "('v, 'c) contextual_timer" where
  "ContextualTimer_new = \<lparr>running = None, contextual_times = Map.empty\<rparr>"

text \<open>
  \<open>if context is None: context = self.detect_context()\<close>.  The argument
  \<open>detect_context\<close> is what the method of the subclass returns or raises; the base
  class raises \<open>NotImplementedError\<close>.
\<close>

definition resolve_context :: "error + 'c \<Rightarrow> 'c option \<Rightarrow> error + 'c" where
  "resolve_context detect_context ctx =
     (case ctx of None \<Rightarrow> detect_context | Some c \<Rightarrow> Inr c)"

definition base_detect_context :: "error + 'c" where
  "base_detect_context = Inl (NotImplementedError ''detect_context() should be implemented'')"

text \<open>\<open>self._contextual_times.get(context, (0, 0))\<close>.\<close>

definition get_times :: "('v, 'c, 'm) contextual_timer_scheme \<Rightarrow> 'c \<Rightarrow> real \<times> real option" where
  "get_times self c = (case contextual_times self c of None \<Rightarrow> (0, Some 0) | Some r \<Rightarrow> r)"

text \<open>\<open>ContextualTimer.__call__\<close>: the elapsed time of a context.\<close>

definition ContextualTimer_call ::
  "error + 'c \<Rightarrow> real \<Rightarrow> ('v, 'c, 'm) contextual_timer_scheme \<Rightarrow> 'c option \<Rightarrow> error + real" where
  "ContextualTimer_call detect_context clock self ctx =
     (case resolve_context detect_context ctx of
        Inl e \<Rightarrow> Inl e
      | Inr c \<Rightarrow>
          (case get_times self c of
             (paused_at, None) \<Rightarrow> Inr paused_at
           | (paused_at, Some resumed_at) \<Rightarrow> Inr (paused_at + clock - resumed_at)))"

definition pause ::
  "error + 'c \<Rightarrow> real \<Rightarrow> ('v, 'c, 'm) contextual_timer_scheme \<Rightarrow> 'c option
     \<Rightarrow> error + ('v, 'c, 'm) contextual_timer_scheme" where
  "pause detect_context clock self ctx =
     (case resolve_context detect_context ctx of
        Inl e \<Rightarrow> Inl e
      | Inr c \<Rightarrow>
          (case ContextualTimer_call detect_context clock self (Some c) of
             Inl e \<Rightarrow> Inl e
           | Inr t \<Rightarrow> Inr (self\<lparr>contextual_times := (contextual_times self)(c \<mapsto> (t, None))\<rparr>)))"

definition resume ::
  "error + 'c \<Rightarrow> real \<Rightarrow> ('v, 'c, 'm) contextual_timer_scheme \<Rightarrow> 'c option
     \<Rightarrow> error + ('v, 'c, 'm) contextual_timer_scheme" where
  "resume detect_context clock self ctx =
     (case resolve_context detect_context ctx of
        Inl e \<Rightarrow> Inl e
      | Inr c \<Rightarrow>
          (case get_times self c of
             (paused_at, r) \<Rightarrow>
               Inr (self\<lparr>contextual_times := (contextual_times self)(c \<mapsto> (paused_at, Some clock))\<rparr>)))"

text \<open>
  A history of \<open>pause\<close> and \<open>resume\<close> calls, each with its context and the clock
  reading at the call.
\<close>

datatype 'c timer_op = Pause 'c real | Resume 'c real

fun op_context :: "'c timer_op \<Rightarrow> 'c" where
  "op_context (Pause c t) = c"
| "op_context (Resume c t) = c"

fun timer_ops ::
  "error + 'c \<Rightarrow> 'c timer_op list \<Rightarrow> ('v, 'c, 'm) contextual_timer_scheme
     \<Rightarrow> error + ('v, 'c, 'm) contextual_timer_scheme" where
  "timer_ops d [] self = Inr self"
| "timer_ops d (Pause c t # ops) self =
     (case pause d t self (Some c) of Inl e \<Rightarrow> Inl e | Inr self' \<Rightarrow> timer_ops d ops self')"
| "timer_ops d (Resume c t # ops) self =
     (case resume d t self (Some c) of Inl e \<Rightarrow> Inl e | Inr self' \<Rightarrow> timer_ops d ops self')"

section \<open>profiling/profiler.py: Profiler\<close>

text \<open>
  The statistics class lives in a module outside these sources: its constructor's value
  and its \<open>clear\<close> method are arguments.  \<open>_cpu_time_started\<close> and
  \<open>_wall_time_started\<close> are \<open>None\<close> while the attribute does not exist.
\<close>

record ('v, 'st) profiler = "'v runnable" +
  base_frame :: "frame option"
  ignoring_codes :: "code set"
  stats :: 'st
  cpu_time_started :: "real option"
  wall_time_started :: "real option"

definition Profiler_init :: "frame option \<Rightarrow> code set \<Rightarrow> 'st \<Rightarrow> ('v, 'st) profiler" where
  "Profiler_init base ign recording_statistics =
     \<lparr>running = None, base_frame = base, ignoring_codes = ign, stats = recording_statistics,
      cpu_time_started = None, wall_time_started = None\<rparr>"

text \<open>
  \<open>Profiler.start\<close>: \<open>cpu\<close> and \<open>wall\<close> are the readings of \<open>time.clock()\<close>
  and \<open>time.time()\<close>.  The attributes are set before \<open>Runnable.start\<close> runs.
\<close>

definition Profiler_start ::
  "('st \<Rightarrow> 'st) \<Rightarrow> 'v gen \<Rightarrow> real \<Rightarrow> real \<Rightarrow> ('v, 'st, 'm) profiler_scheme
     \<Rightarrow> (error + unit) \<times> ('v, 'st, 'm) profiler_scheme" where
  "Profiler_start clear run cpu wall self =
     Runnable_start run
       (self\<lparr>cpu_time_started := Some cpu, wall_time_started := Some wall,
             stats := clear (stats self)\<rparr>)"

definition Profiler_frame_stack :: "('v, 'st, 'm) profiler_scheme \<Rightarrow> frame option \<Rightarrow> frame list" where
  "Profiler_frame_stack self frame = frame_stack frame (base_frame self) (ignoring_codes self)"

text \<open>Reading an attribute that may not exist.\<close>

definition getattr :: "string \<Rightarrow> 'a option \<Rightarrow> error + 'a" where
  "getattr name attr = (case attr of None \<Rightarrow> Inl (AttributeError name) | Some x \<Rightarrow> Inr x)"

text \<open>
  \<open>Profiler.result\<close>: the \<open>try\<close> block, then the handler of \<open>AttributeError\<close>.
  The result is the outcome and the profiler afterwards.
\<close>

definition result_times :: "real \<Rightarrow> real \<Rightarrow> ('v, 'st, 'm) profiler_scheme \<Rightarrow> error + real \<times> real" where
  "result_times cpu wall self =
     (case getattr ''_cpu_time_started'' (cpu_time_started self) of
        Inl e \<Rightarrow> Inl e
      | Inr c \<Rightarrow>
          (case getattr ''_wall_time_started'' (wall_time_started self) of
             Inl e \<Rightarrow> Inl e
           | Inr w \<Rightarrow> Inr (max 0 (cpu - c), max 0 (wall - w))))"

definition Profiler_result ::
  "real \<Rightarrow> real \<Rightarrow> ('v, 'st, 'm) profiler_scheme
     \<Rightarrow> (error + 'st \<times> real \<times> real) \<times> ('v, 'st, 'm) profiler_scheme" where
  "Profiler_result cpu wall self =
     (case result_times cpu wall self of
        Inl (AttributeError name) \<Rightarrow> (Inr (stats self, 0, 0), self)
      | Inl e \<Rightarrow> (Inl e, self)
      | Inr (cpu_time, wall_time) \<Rightarrow> (Inr (stats self, cpu_time, wall_time), self))"

section \<open>profiling/sampling/samplers.py\<close>

text \<open>
  \<open>sys._current_frames()\<close> returns a fresh dictionary from thread identifiers to
  frames: a list of pairs with distinct keys, in the dictionary's order.  An assignment
  \<open>frames[k] = v\<close> replaces the value of \<open>k\<close> in place, or adds \<open>k\<close> at the end
  (\<open>AList.update\<close>); \<open>frames.values()\<close> is \<open>map snd\<close>.

  \<open>profiler.sample\<close> belongs to the subclasses of \<open>Profiler\<close>, outside these
  sources: it is the argument \<open>sample\<close>, acting on the profiler \<open>'p\<close>.
\<close>

type_synonym thread_id = nat

record 'v sampler = "'v runnable" +
  interval :: real

record 'v itimer_sampler = "'v sampler" +
  main_thread_id :: thread_id

record 'v tracing_sampler = "'v sampler" +
  sampled_at :: real

definition values_of :: "(thread_id \<times> frame) list \<Rightarrow> frame list" where
  "values_of frames = map snd frames"


text \<open>
  \<open>TracingSampler._profile\<close>; \<open>event\<close> and \<open>arg\<close> are not used.  \<open>clock\<close> is
  the reading of \<open>clock()\<close>, \<open>get_ident\<close> the identifier of the calling thread.
\<close>

definition TracingSampler_profile ::
  "(frame \<Rightarrow> 'p \<Rightarrow> 'p) \<Rightarrow> (thread_id \<times> frame) list \<Rightarrow> thread_id \<Rightarrow> real
     \<Rightarrow> ('v, 'm) tracing_sampler_scheme \<Rightarrow> 'p \<Rightarrow> frame
     \<Rightarrow> ('v, 'm) tracing_sampler_scheme \<times> 'p" where
  "TracingSampler_profile sample current_frames get_ident clock self profiler frame =
     (if clock - sampled_at self < interval self then (self, profiler)
      else
        (self\<lparr>sampled_at := clock\<rparr>,
         fold sample (values_of (AList.update get_ident frame current_frames)) profiler))"

section \<open>Definitions for the statements\<close>

text \<open>
  The elapsed time of a record as the specification words it: \<open>accumulated\<close> if
  paused, else \<open>accumulated + (now() - resumed_at)\<close>.
\<close>

fun spec_elapsed :: "real \<times> real option \<Rightarrow> real \<Rightarrow> real" where
  "spec_elapsed (accumulated, None) now = accumulated"
| "spec_elapsed (accumulated, Some resumed_at) now = accumulated + (now - resumed_at)"

text \<open>A profiler that only records the frames \<open>sample\<close> is called with, in order.\<close>

definition record_call :: "frame \<Rightarrow> frame list \<Rightarrow> frame list" where
  "record_call f calls = calls @ [f]"

text \<open>
  Example data: a chain of four frames, \<open>fr1\<close> the innermost; a deferred call that
  appends its number to a trace, and one that raises.
\<close>

definition fr4 :: frame where "fr4 = Frame 4 40 None"
definition fr3 :: frame where "fr3 = Frame 3 30 (Some fr4)"
definition fr2 :: frame where "fr2 = Frame 2 20 (Some fr3)"
definition fr1 :: frame where "fr1 = Frame 1 10 (Some fr2)"

definition emit :: "nat \<Rightarrow> nat list action" where
  "emit n trace = (None, trace @ [n])"

definition boom :: "nat list action" where
  "boom trace = (Some (OtherError ''boom''), trace)"

definition halt :: "nat list action" where
  "halt trace = (Some StopIteration, trace)"

section \<open>Runnable: the life cycle\<close>

lemma start_when_running:
  "is_running self \<Longrightarrow> Runnable_start run self = (Inl (RuntimeError ''Already started''), self)"
  by (simp add: Runnable_start_def)

lemma start_many_when_running:
  "is_running self \<Longrightarrow>
   start_many runs self = (replicate (length runs) (Inl (RuntimeError ''Already started'')), self)"
  by (induction runs) (simp_all add: start_when_running)

lemma stopped_update_None: "\<not> is_running self \<Longrightarrow> self\<lparr>running := None\<rparr> = self"
  by (simp add: is_running_def)

lemma next_gen_StopIteration: "next_gen (Raise StopIteration) = next_gen (Done :: 'v gen)"
  by simp

lemma start_base_run:
  "\<not> is_running self \<Longrightarrow>
   Runnable_start Runnable_run self =
     (Inl (NotImplementedError ''Implement run()''), self\<lparr>running := Some Done\<rparr>)"
  by (simp add: Runnable_start_def Runnable_run_def)

text \<open>
  C1.  On an instance that is not running, \<open>start(); stop()\<close> with a \<open>run\<close>
  that yields once, without a value, and then returns succeeds and leaves the instance
  as it was (so a further \<open>stop\<close> fails again); with a \<open>run\<close> that yields a
  value \<open>v\<close> once and returns, it succeeds only if \<open>v\<close> is \<open>None\<close>.
  \<open>start\<close> on a running instance
  raises \<open>RuntimeError\<close> whatever \<open>run\<close> is, and the instance keeps the
  generator it had, not advanced.  \<open>stop\<close> on an instance that is not running raises
  \<open>RuntimeError\<close>.
\<close>

theorem Runnable_start_stop:
  fixes self :: "('v, 'm) runnable_scheme"
  shows "(\<not> is_running self \<longrightarrow>
            Runnable_start (Yield None Done) self = (Inr (), self\<lparr>running := Some Done\<rparr>) \<and>
            start_then_stop (Yield None Done) self = (Inr (), self) \<and>
            (fst (start_then_stop (Yield v Done) self) = Inr ()) = (v = None)) \<and>
         (is_running self \<longrightarrow>
            Runnable_start run self = (Inl (RuntimeError ''Already started''), self)) \<and>
         (\<not> is_running self \<longrightarrow>
            Runnable_stop self = (Inl (RuntimeError ''Not started''), self))"
proof (intro conjI impI)
  assume stopped: "\<not> is_running self"
  show first: "Runnable_start (Yield None Done) self = (Inr (), self\<lparr>running := Some Done\<rparr>)"
    using stopped by (simp add: Runnable_start_def)
  have "Runnable_stop (self\<lparr>running := Some Done\<rparr>) = (Inr (), self\<lparr>running := None\<rparr>)"
    by (simp add: Runnable_stop_def)
  then show "start_then_stop (Yield None Done) self = (Inr (), self)"
    using first stopped by (simp add: start_then_stop_def stopped_update_None)
  show "(fst (start_then_stop (Yield v Done) self) = Inr ()) = (v = None)"
    using stopped
    by (cases v) (simp_all add: start_then_stop_def Runnable_start_def Runnable_stop_def)
next
  assume "is_running self"
  then show "Runnable_start run self = (Inl (RuntimeError ''Already started''), self)"
    by (rule start_when_running)
next
  assume "\<not> is_running self"
  then show "Runnable_stop self = (Inl (RuntimeError ''Not started''), self)"
    by (simp add: Runnable_stop_def is_running_def)
qed

theorem Runnable_start_stop_witness:
  "\<not> is_running \<lparr>running = (None :: nat gen option)\<rparr> \<and>
   start_then_stop Timer_run \<lparr>running = (None :: nat gen option)\<rparr>
     = (Inr (), \<lparr>running = None\<rparr>) \<and>
   Runnable_stop \<lparr>running = (None :: nat gen option)\<rparr>
     = (Inl (RuntimeError ''Not started''), \<lparr>running = None\<rparr>) \<and>
   is_running \<lparr>running = Some (Done :: nat gen)\<rparr> \<and>
   Runnable_start (Yield None Done) \<lparr>running = Some (Done :: nat gen)\<rparr>
     = (Inl (RuntimeError ''Already started''), \<lparr>running = Some Done\<rparr>)"
  using Runnable_start_stop [of "\<lparr>running = (None :: nat gen option)\<rparr>" None "Yield None Done"]
        Runnable_start_stop [of "\<lparr>running = Some (Done :: nat gen)\<rparr>" None "Yield None Done"]
  by (simp add: is_running_def Timer_run_def)

text \<open>
  A \<open>run\<close> that yields exactly once, but yields a value: \<open>start\<close> raises
  \<open>TypeError\<close>, so \<open>start(); stop()\<close> does not succeed.
\<close>

theorem Runnable_start_value_counterexample:
  "\<not> is_running \<lparr>running = (None :: nat gen option)\<rparr> \<and>
   start_then_stop (Yield (Some 1) Done) \<lparr>running = (None :: nat gen option)\<rparr>
     = (Inl (TypeError ''run() must yield without value''), \<lparr>running = Some Done\<rparr>)"
  by (simp add: is_running_def start_then_stop_def Runnable_start_def)

text \<open>
  C10.  A \<open>run\<close> whose generator returns without yielding: \<open>start\<close> on an
  instance that is not running raises \<open>TypeError\<close> and leaves the exhausted
  generator in \<open>_running\<close>.  The instance then is running and differs from the one
  before, every later \<open>start\<close> raises \<open>RuntimeError\<close> and changes nothing, and
  \<open>stop\<close> returns normally and brings the instance back to where it was.
\<close>

theorem failed_start_leaves_running:
  fixes self :: "('v, 'm) runnable_scheme"
  assumes "\<not> is_running self"
  shows "Runnable_start Done self =
           (Inl (TypeError ''run() must yield just one time''), self\<lparr>running := Some Done\<rparr>) \<and>
         is_running (snd (Runnable_start Done self)) \<and>
         snd (Runnable_start Done self) \<noteq> self \<and>
         start_many runs (snd (Runnable_start Done self)) =
           (replicate (length runs) (Inl (RuntimeError ''Already started'')),
            snd (Runnable_start Done self)) \<and>
         Runnable_stop (snd (Runnable_start Done self)) = (Inr (), self)"
proof -
  let ?failed = "self\<lparr>running := Some Done\<rparr>"
  have st: "Runnable_start Done self =
              (Inl (TypeError ''run() must yield just one time''), ?failed)"
    using assms by (simp add: Runnable_start_def)
  have run: "is_running ?failed"
    by (simp add: is_running_def)
  have neq: "?failed \<noteq> self"
    using assms run by auto
  have many: "start_many runs ?failed =
                (replicate (length runs) (Inl (RuntimeError ''Already started'')), ?failed)"
    using run by (rule start_many_when_running)
  have "Runnable_stop ?failed = (Inr (), self\<lparr>running := None\<rparr>)"
    by (simp add: Runnable_stop_def)
  then have stop: "Runnable_stop ?failed = (Inr (), self)"
    using assms by (simp add: stopped_update_None)
  show ?thesis
    using st run neq many stop by simp
qed

theorem failed_start_leaves_running_witness:
  "\<not> is_running \<lparr>running = (None :: nat gen option)\<rparr> \<and>
   Runnable_start Done \<lparr>running = (None :: nat gen option)\<rparr> =
     (Inl (TypeError ''run() must yield just one time''), \<lparr>running = Some Done\<rparr>) \<and>
   is_running (snd (Runnable_start Done \<lparr>running = (None :: nat gen option)\<rparr>)) \<and>
   start_many [Yield None Done, Done]
       (snd (Runnable_start Done \<lparr>running = (None :: nat gen option)\<rparr>)) =
     ([Inl (RuntimeError ''Already started''), Inl (RuntimeError ''Already started'')],
      \<lparr>running = Some Done\<rparr>) \<and>
   Runnable_stop (snd (Runnable_start Done \<lparr>running = (None :: nat gen option)\<rparr>)) =
     (Inr (), \<lparr>running = None\<rparr>)"
proof -
  have h: "\<not> is_running \<lparr>running = (None :: nat gen option)\<rparr>"
    by (simp add: is_running_def)
  note t = failed_start_leaves_running [OF h, of "[Yield None Done, Done]"]
  have e: "snd (Runnable_start Done \<lparr>running = (None :: nat gen option)\<rparr>)
             = \<lparr>running = Some Done\<rparr>"
    using t by simp
  show ?thesis
    using h t unfolding e by simp
qed

section \<open>The walk of \<open>frame_stack\<close>\<close>

lemma frame_stack_loop_eq:
  "frame_stack_loop f base ign acc =
     rev (filter (\<lambda>g. f_code g \<notin> ign) (takeWhile (\<lambda>g. \<not> is_frame g base) (chain f))) @ acc"
  by (induction f base ign acc rule: frame_stack_loop.induct) simp_all

lemma base_position_first:
  assumes d: "distinct (map f_ident (chain f))"
    and k: "k < length (chain f)"
    and b: "is_frame (chain f ! k) base"
  shows "takeWhile (\<lambda>g. \<not> is_frame g base) (chain f) = take k (chain f)"
proof (rule takeWhile_eq_take_P_nth)
  fix i assume i: "i < k" "i < length (chain f)"
  obtain bf where bf: "base = Some bf" "f_ident (chain f ! k) = f_ident bf"
    using b by (cases base) auto
  have "map f_ident (chain f) ! i \<noteq> map f_ident (chain f) ! k"
    using d i k by (simp add: nth_eq_iff_index_eq del: nth_map)
  then have "f_ident (chain f ! i) \<noteq> f_ident (chain f ! k)"
    using i k by simp
  then show "\<not> is_frame (chain f ! i) base"
    using bf by simp
next
  show "\<not> \<not> is_frame (chain f ! k) base" using b by simp
qed

text \<open>
  C6.  \<open>frame_stack\<close> returns, oldest caller first, the frames of the chain that come
  before the first frame that is the base frame (all of them when the chain ends first),
  without the frames whose code is ignored: an ignored frame is left out and the walk goes
  on to its caller.  When the frames of the chain are distinct objects, the base frame is
  \<open>k\<close> callers above the innermost frame and nothing is ignored, the result is the
  first \<open>k\<close> frames of the chain, reversed: exactly \<open>k\<close> frames.
\<close>

theorem frame_stack_walk:
  "frame_stack f base ign =
     rev (filter (\<lambda>g. f_code g \<notin> ign) (takeWhile (\<lambda>g. \<not> is_frame g base) (chain f))) \<and>
   (distinct (map f_ident (chain f)) \<and> k < length (chain f) \<and> is_frame (chain f ! k) base \<longrightarrow>
      frame_stack f base {} = rev (take k (chain f)) \<and> length (frame_stack f base {}) = k)"
proof (intro conjI impI)
  show g: "frame_stack f base ign =
     rev (filter (\<lambda>g. f_code g \<notin> ign) (takeWhile (\<lambda>g. \<not> is_frame g base) (chain f)))" for ign
    by (simp add: frame_stack_def frame_stack_loop_eq)
  assume a: "distinct (map f_ident (chain f)) \<and> k < length (chain f) \<and> is_frame (chain f ! k) base"
  then have "takeWhile (\<lambda>g. \<not> is_frame g base) (chain f) = take k (chain f)"
    by (simp add: base_position_first)
  then show e: "frame_stack f base {} = rev (take k (chain f))"
    by (simp add: g)
  show "length (frame_stack f base {}) = k"
    using a by (simp add: e)
qed

lemma example_chain: "chain (Some fr1) = [fr1, fr2, fr3, fr4]"
  by (simp add: fr1_def fr2_def fr3_def fr4_def)

lemma example_frames:
  "f_ident fr1 = 1" "f_ident fr2 = 2" "f_ident fr3 = 3" "f_ident fr4 = 4"
  "f_code fr1 = 10" "f_code fr2 = 20" "f_code fr3 = 30" "f_code fr4 = 40"
  by (simp_all add: fr1_def fr2_def fr3_def fr4_def)

theorem frame_stack_walk_witness:
  "distinct (map f_ident (chain (Some fr1))) \<and> 2 < length (chain (Some fr1)) \<and>
   is_frame (chain (Some fr1) ! 2) (Some fr3) \<and>
   frame_stack (Some fr1) (Some fr3) {} = [fr2, fr1] \<and>
   length (frame_stack (Some fr1) (Some fr3) {}) = 2 \<and>
   frame_stack (Some fr1) (Some fr3) {10} = [fr2]"
proof -
  have h: "distinct (map f_ident (chain (Some fr1))) \<and> 2 < length (chain (Some fr1)) \<and>
           is_frame (chain (Some fr1) ! 2) (Some fr3)"
    by (simp add: example_chain example_frames)
  show ?thesis
    using h frame_stack_walk [of "Some fr1" "Some fr3" "{10}" 2]
    by (simp add: example_chain example_frames)
qed

section \<open>deferral: the unwinding\<close>

lemma run_deferred_Nil: "run_deferred [] s = (None, s)"
  by (simp add: run_deferred.simps)

lemma run_deferred_snoc:
  "run_deferred (ds @ [a]) s =
     (case a s of (Some e, s') \<Rightarrow> (Some e, s') | (None, s') \<Rightarrow> run_deferred ds s')"
  by (subst run_deferred.simps) (simp split: prod.split option.split)

lemma run_deferred_all_return:
  "all_return (rev ds) s \<Longrightarrow> run_deferred ds s = (None, exec_all (rev ds) s)"
proof (induction ds arbitrary: s rule: rev_induct)
  case Nil
  then show ?case by (simp add: run_deferred_Nil)
next
  case (snoc a ds)
  obtain r s' where a: "a s = (r, s')" by (cases "a s") auto
  with snoc.prems have "r = None" "all_return (rev ds) s'" by simp_all
  with snoc.IH a show ?case by (simp add: run_deferred_snoc)
qed

lemma run_deferred_raises:
  assumes "all_return (rev after) s" and "a (exec_all (rev after) s) = (Some e, s2)"
  shows "run_deferred (before @ a # after) s = (Some e, s2)"
  using assms
proof (induction after arbitrary: s rule: rev_induct)
  case Nil
  then show ?case using run_deferred_snoc [of before a s] by simp
next
  case (snoc b after)
  obtain r s' where b: "b s = (r, s')" by (cases "b s") auto
  with snoc.prems have "r = None" "all_return (rev after) s'"
    "a (exec_all (rev after) s') = (Some e, s2)" by simp_all
  with snoc.IH [of s'] b show ?case
    using run_deferred_snoc [of "before @ a # after" b s] by simp
qed

lemma run_body_prefix:
  "calls_return pre s \<Longrightarrow>
   run_body (pre @ rest) acc s = run_body rest (acc @ registered pre) (after_calls pre s)"
proof (induction pre acc s rule: run_body.induct)
  case (1 deferred s)
  then show ?case by simp
next
  case (2 a body deferred s)
  then show ?case by simp
next
  case (3 a body deferred s)
  obtain r s' where a: "a s = (r, s')" by (cases "a s") auto
  with 3 show ?case by simp
qed

lemma run_body_completes:
  "calls_return body s \<Longrightarrow> run_body body [] s = (None, registered body, after_calls body s)"
  using run_body_prefix [of body s "[]" "[]"] by simp

lemma run_body_raises:
  "calls_return pre s \<Longrightarrow> a (after_calls pre s) = (Some e, s1) \<Longrightarrow>
   run_body (pre @ Call a # post) [] s = (Some e, registered pre, s1)"
  using run_body_prefix [of pre s "Call a # post" "[]"] by simp

text \<open>
  C2.  The body either completes (every statement returns) or raises \<open>e\<close> at a
  statement, after the statements \<open>pre\<close> have returned; the actions registered are
  those of the body, or those of \<open>pre\<close>.  If every registered action returns when
  they run in reverse order of registration, the scope ends in the state that running
  each of them once in that order gives, and then raises nothing in the first case and
  \<open>e\<close> in the second.  If a registered action \<open>d\<close> raises once the actions
  registered after it have returned, the unwinding stops there: the actions registered
  before \<open>d\<close> are not run, the state is the one \<open>d\<close> leaves, and its exception
  leaves the scope in place of the body's.
\<close>

theorem deferral_unwinds_in_reverse:
  "(calls_return body s \<and> all_return (rev (registered body)) (after_calls body s) \<longrightarrow>
      deferral g body s = (None, exec_all (rev (registered body)) (after_calls body s))) \<and>
   (calls_return pre s \<and> a (after_calls pre s) = (Some e, s1) \<and>
    all_return (rev (registered pre)) s1 \<longrightarrow>
      deferral g (pre @ Call a # post) s = (Some e, exec_all (rev (registered pre)) s1)) \<and>
   (calls_return body s \<and> registered body = before @ d # after \<and>
    all_return (rev after) (after_calls body s) \<and>
    d (exec_all (rev after) (after_calls body s)) = (Some e', s2) \<longrightarrow>
      deferral g body s = (leave_finally g e', s2)) \<and>
   (calls_return pre s \<and> a (after_calls pre s) = (Some e, s1) \<and>
    registered pre = before @ d # after \<and> all_return (rev after) s1 \<and>
    d (exec_all (rev after) s1) = (Some e', s2) \<longrightarrow>
      deferral g (pre @ Call a # post) s = (leave_finally g e', s2))"
proof (intro conjI impI)
  assume h: "calls_return body s \<and> all_return (rev (registered body)) (after_calls body s)"
  then have "run_deferred (registered body) (after_calls body s) =
               (None, exec_all (rev (registered body)) (after_calls body s))"
    by (simp add: run_deferred_all_return)
  then show "deferral g body s = (None, exec_all (rev (registered body)) (after_calls body s))"
    using h by (simp add: deferral_def run_body_completes)
next
  assume h: "calls_return pre s \<and> a (after_calls pre s) = (Some e, s1) \<and>
             all_return (rev (registered pre)) s1"
  then have "run_deferred (registered pre) s1 = (None, exec_all (rev (registered pre)) s1)"
    by (simp add: run_deferred_all_return)
  moreover have "run_body (pre @ Call a # post) [] s = (Some e, registered pre, s1)"
    using h by (simp add: run_body_raises)
  ultimately show "deferral g (pre @ Call a # post) s =
                     (Some e, exec_all (rev (registered pre)) s1)"
    by (simp add: deferral_def)
next
  assume h: "calls_return body s \<and> registered body = before @ d # after \<and>
             all_return (rev after) (after_calls body s) \<and>
             d (exec_all (rev after) (after_calls body s)) = (Some e', s2)"
  then have "run_deferred (before @ d # after) (after_calls body s) = (Some e', s2)"
    by (simp add: run_deferred_raises)
  then show "deferral g body s = (leave_finally g e', s2)"
    using h by (simp add: deferral_def run_body_completes)
next
  assume h: "calls_return pre s \<and> a (after_calls pre s) = (Some e, s1) \<and>
             registered pre = before @ d # after \<and> all_return (rev after) s1 \<and>
             d (exec_all (rev after) s1) = (Some e', s2)"
  then have "run_deferred (before @ d # after) s1 = (Some e', s2)"
    by (simp add: run_deferred_raises)
  moreover have "run_body (pre @ Call a # post) [] s = (Some e, registered pre, s1)"
    using h by (simp add: run_body_raises)
  ultimately show "deferral g (pre @ Call a # post) s = (leave_finally g e', s2)"
    using h by (simp add: deferral_def)
qed

theorem deferral_unwinds_in_reverse_witness:
  "calls_return [Defer (emit 1), Defer (emit 2)] [] \<and>
   all_return (rev (registered [Defer (emit 1), Defer (emit 2)]))
     (after_calls [Defer (emit 1), Defer (emit 2)] []) \<and>
   deferral True [Defer (emit 1), Defer (emit 2)] [] = (None, [2, 1]) \<and>
   boom (after_calls [Defer (emit 1), Defer (emit 2)] []) = (Some (OtherError ''boom''), []) \<and>
   deferral True ([Defer (emit 1), Defer (emit 2)] @ Call boom # [Defer (emit 3)]) [] =
     (Some (OtherError ''boom''), [2, 1]) \<and>
   calls_return [Defer (emit 1), Defer boom, Defer (emit 3)] [] \<and>
   registered [Defer (emit 1), Defer boom, Defer (emit 3)] = [emit 1] @ boom # [emit 3] \<and>
   all_return (rev [emit 3]) (after_calls [Defer (emit 1), Defer boom, Defer (emit 3)] []) \<and>
   boom (exec_all (rev [emit 3]) (after_calls [Defer (emit 1), Defer boom, Defer (emit 3)] [])) =
     (Some (OtherError ''boom''), [3]) \<and>
   deferral True [Defer (emit 1), Defer boom, Defer (emit 3)] [] =
     (Some (OtherError ''boom''), [3]) \<and>
   calls_return [Defer (emit 1), Defer halt] [] \<and>
   boom (after_calls [Defer (emit 1), Defer halt] []) = (Some (OtherError ''boom''), []) \<and>
   registered [Defer (emit 1), Defer halt] = [emit 1] @ halt # [] \<and>
   all_return (rev []) ([] :: nat list) \<and>
   halt (exec_all (rev []) []) = (Some StopIteration, []) \<and>
   deferral True ([Defer (emit 1), Defer halt] @ Call boom # []) [] =
     (Some (RuntimeError ''generator raised StopIteration''), []) \<and>
   deferral False ([Defer (emit 1), Defer halt] @ Call boom # []) [] = (None, [])"
proof -
  have h1: "calls_return [Defer (emit 1), Defer (emit 2)] [] \<and>
            all_return (rev (registered [Defer (emit 1), Defer (emit 2)]))
              (after_calls [Defer (emit 1), Defer (emit 2)] [])"
    by (simp add: emit_def)
  have h2: "calls_return [Defer (emit 1), Defer (emit 2)] [] \<and>
            boom (after_calls [Defer (emit 1), Defer (emit 2)] []) = (Some (OtherError ''boom''), []) \<and>
            all_return (rev (registered [Defer (emit 1), Defer (emit 2)])) []"
    by (simp add: emit_def boom_def)
  have h3: "calls_return [Defer (emit 1), Defer boom, Defer (emit 3)] [] \<and>
            registered [Defer (emit 1), Defer boom, Defer (emit 3)] = [emit 1] @ boom # [emit 3] \<and>
            all_return (rev [emit 3]) (after_calls [Defer (emit 1), Defer boom, Defer (emit 3)] []) \<and>
            boom (exec_all (rev [emit 3]) (after_calls [Defer (emit 1), Defer boom, Defer (emit 3)] []))
              = (Some (OtherError ''boom''), [3])"
    by (simp add: emit_def boom_def)
  have h4: "calls_return [Defer (emit 1), Defer halt] [] \<and>
            boom (after_calls [Defer (emit 1), Defer halt] []) = (Some (OtherError ''boom''), []) \<and>
            registered [Defer (emit 1), Defer halt] = [emit 1] @ halt # [] \<and>
            all_return (rev []) ([] :: nat list) \<and>
            halt (exec_all (rev []) []) = (Some StopIteration, [])"
    by (simp add: boom_def halt_def)
  have e: "exec_all (rev (registered [Defer (emit 1), Defer (emit 2)])) [] = [2, 1]"
          "after_calls [Defer (emit 1), Defer (emit 2)] [] = ([] :: nat list)"
    by (simp_all add: emit_def)
  have l: "leave_finally True (OtherError ''boom'') = Some (OtherError ''boom'')"
          "leave_finally True StopIteration = Some (RuntimeError ''generator raised StopIteration'')"
          "leave_finally False StopIteration = None"
    by (simp_all add: leave_finally_def)
  note t = deferral_unwinds_in_reverse
  have c1: "deferral True [Defer (emit 1), Defer (emit 2)] [] = (None, [2, 1])"
    using h1 e t [where g = True and body = "[Defer (emit 1), Defer (emit 2)]" and s = "[]"]
    by simp
  have c2: "deferral True ([Defer (emit 1), Defer (emit 2)] @ Call boom # [Defer (emit 3)]) [] =
              (Some (OtherError ''boom''), [2, 1])"
    using h2 e
      t [where g = True and pre = "[Defer (emit 1), Defer (emit 2)]" and s = "[]" and a = boom
           and e = "OtherError ''boom''" and ?s1.0 = "[]" and post = "[Defer (emit 3)]"]
    by simp
  have c3: "deferral True [Defer (emit 1), Defer boom, Defer (emit 3)] [] =
              (Some (OtherError ''boom''), [3])"
    using h3 l
      t [where g = True and body = "[Defer (emit 1), Defer boom, Defer (emit 3)]" and s = "[]"
           and before = "[emit 1]" and d = boom and after = "[emit 3]"
           and e' = "OtherError ''boom''" and ?s2.0 = "[3]"]
    by simp
  have c4: "deferral True ([Defer (emit 1), Defer halt] @ Call boom # []) [] =
              (Some (RuntimeError ''generator raised StopIteration''), [])"
    using h4 l
      t [where g = True and pre = "[Defer (emit 1), Defer halt]" and s = "[]" and a = boom
           and e = "OtherError ''boom''" and ?s1.0 = "[]" and post = "[]"
           and before = "[emit 1]" and d = halt and after = "[]"
           and e' = StopIteration and ?s2.0 = "[]"]
    by simp
  have c5: "deferral False ([Defer (emit 1), Defer halt] @ Call boom # []) [] = (None, [])"
    using h4 l
      t [where g = False and pre = "[Defer (emit 1), Defer halt]" and s = "[]" and a = boom
           and e = "OtherError ''boom''" and ?s1.0 = "[]" and post = "[]"
           and before = "[emit 1]" and d = halt and after = "[]"
           and e' = StopIteration and ?s2.0 = "[]"]
    by simp
  show ?thesis
    using h1 h2 h3 h4 c1 c2 c3 c4 c5 by simp
qed

text \<open>
  A body that registers two actions and completes; the action registered last raises.
  The action registered first is never run: the trace stays empty, where running each
  registered action once would leave \<open>[1]\<close>.  This is so on every interpreter.
\<close>

theorem deferral_raising_action_counterexample:
  "calls_return [Defer (emit 1), Defer boom] [] \<and>
   registered [Defer (emit 1), Defer boom] = [emit 1, boom] \<and>
   deferral True [Defer (emit 1), Defer boom] [] = (Some (OtherError ''boom''), []) \<and>
   deferral False [Defer (emit 1), Defer boom] [] = (Some (OtherError ''boom''), []) \<and>
   exec_all (rev [emit 1, boom]) [] = [1] \<and>
   snd (deferral True [Defer (emit 1), Defer boom] []) \<noteq> exec_all (rev [emit 1, boom]) [] \<and>
   snd (deferral False [Defer (emit 1), Defer boom] []) \<noteq> exec_all (rev [emit 1, boom]) []"
proof -
  have "run_deferred ([emit 1] @ [boom]) [] = (Some (OtherError ''boom''), [])"
    by (simp only: run_deferred_snoc) (simp add: boom_def)
  then show ?thesis
    by (simp add: deferral_def leave_finally_def emit_def boom_def)
qed

section \<open>ContextualTimer: elapsed time, pause and resume\<close>

lemma resolve_explicit: "resolve_context d (Some c) = Inr c"
  by (simp add: resolve_context_def)

lemma call_resolved:
  assumes "resolve_context d ctx = Inr c"
  shows "ContextualTimer_call d now self ctx = Inr (spec_elapsed (get_times self c) now)"
proof -
  obtain acc r where g: "get_times self c = (acc, r)"
    by (cases "get_times self c") auto
  show ?thesis
    using assms g by (cases r) (simp_all add: ContextualTimer_call_def)
qed

lemma pause_resolved:
  assumes "resolve_context d ctx = Inr c"
  shows "pause d now self ctx =
           Inr (self\<lparr>contextual_times :=
                  (contextual_times self)(c \<mapsto> (spec_elapsed (get_times self c) now, None))\<rparr>)"
  using assms by (simp add: pause_def call_resolved resolve_explicit)

lemma resume_resolved:
  assumes "resolve_context d ctx = Inr c"
  shows "resume d now self ctx =
           Inr (self\<lparr>contextual_times :=
                  (contextual_times self)(c \<mapsto> (fst (get_times self c), Some now))\<rparr>)"
  using assms by (simp add: resume_def split: prod.split)

lemma get_times_tracked: "contextual_times self c = Some r \<Longrightarrow> get_times self c = r"
  by (simp add: get_times_def)

lemma get_times_untracked: "contextual_times self c = None \<Longrightarrow> get_times self c = (0, Some 0)"
  by (simp add: get_times_def)

lemma get_times_update:
  "get_times (self\<lparr>contextual_times := (contextual_times self)(c \<mapsto> r)\<rparr>) c = r"
  by (simp add: get_times_def)

lemma untracked_kept:
  assumes "c \<notin> op_context ` set ops" and "contextual_times self c = None"
  shows "\<exists>self'. timer_ops d ops self = Inr self' \<and> contextual_times self' c = None"
  using assms
proof (induction ops arbitrary: self)
  case Nil
  then show ?case by simp
next
  case (Cons x ops)
  show ?case
  proof (cases x)
    case (Pause c' t)
    let ?s = "self\<lparr>contextual_times :=
                (contextual_times self)(c' \<mapsto> (spec_elapsed (get_times self c') t, None))\<rparr>"
    have "c' \<noteq> c" using Cons.prems Pause by auto
    then have "contextual_times ?s c = None" using Cons.prems by simp
    moreover have "c \<notin> op_context ` set ops" using Cons.prems by simp
    ultimately have "\<exists>self'. timer_ops d ops ?s = Inr self' \<and> contextual_times self' c = None"
      by (rule Cons.IH[rotated])
    then show ?thesis
      using Pause by (simp add: pause_resolved resolve_explicit)
  next
    case (Resume c' t)
    let ?s = "self\<lparr>contextual_times :=
                (contextual_times self)(c' \<mapsto> (fst (get_times self c'), Some t))\<rparr>"
    have "c' \<noteq> c" using Cons.prems Resume by auto
    then have "contextual_times ?s c = None" using Cons.prems by simp
    moreover have "c \<notin> op_context ` set ops" using Cons.prems by simp
    ultimately have "\<exists>self'. timer_ops d ops ?s = Inr self' \<and> contextual_times self' c = None"
      by (rule Cons.IH[rotated])
    then show ?thesis
      using Resume by (simp add: resume_resolved resolve_explicit)
  qed
qed

text \<open>
  C3.  On a new timer, after any history of \<open>pause\<close> and \<open>resume\<close> calls none of
  which names the context \<open>c\<close>, the history has returned, \<open>c\<close> has no record, and
  the elapsed time of \<open>c\<close> is the current clock reading: the default record
  \<open>(0, 0)\<close> is that of a context running since the clock read 0.
\<close>

theorem untracked_context_reads_clock:
  assumes "c \<notin> op_context ` set ops"
  shows "\<exists>self'. timer_ops d ops (ContextualTimer_new :: ('v, 'c) contextual_timer) = Inr self' \<and>
           contextual_times self' c = None \<and>
           ContextualTimer_call d now self' (Some c) = Inr now"
proof -
  have "contextual_times (ContextualTimer_new :: ('v, 'c) contextual_timer) c = None"
    by (simp add: ContextualTimer_new_def)
  from untracked_kept [OF assms this, of d] obtain self' where
    s: "timer_ops d ops (ContextualTimer_new :: ('v, 'c) contextual_timer) = Inr self'"
       "contextual_times self' c = None"
    by (elim exE conjE)
  have "ContextualTimer_call d now self' (Some c) = Inr now"
    using s(2) by (simp add: call_resolved resolve_explicit get_times_untracked)
  with s show ?thesis
    by (intro exI [of _ self'] conjI)
qed

theorem untracked_context_reads_clock_witness:
  "(2::nat) \<notin> op_context ` set [Resume 1 3, Pause 1 4] \<and>
   (\<exists>self'. timer_ops base_detect_context [Resume (1::nat) 3, Pause 1 4]
               (ContextualTimer_new :: (nat, nat) contextual_timer) = Inr self' \<and>
            contextual_times self' 2 = None \<and>
            ContextualTimer_call base_detect_context 9 self' (Some 2) = Inr 9)"
proof -
  have h: "(2::nat) \<notin> op_context ` set [Resume 1 3, Pause 1 4]" by simp
  show ?thesis
    using h untracked_context_reads_clock [OF h, of base_detect_context 9] by blast
qed

text \<open>
  A new timer, a context never paused or resumed, the clock at 5: the elapsed time is 5,
  not 0.
\<close>

theorem untracked_elapsed_counterexample:
  "ContextualTimer_call base_detect_context 5 (ContextualTimer_new :: (nat, nat) contextual_timer)
     (Some 1) = Inr 5 \<and>
   ContextualTimer_call base_detect_context 5 (ContextualTimer_new :: (nat, nat) contextual_timer)
     (Some 1) \<noteq> Inr 0"
  by (simp add: ContextualTimer_call_def resolve_context_def get_times_def ContextualTimer_new_def)

text \<open>
  C4.  For a context with a record \<open>(accumulated, resumed)\<close>, given explicitly or
  detected: the elapsed time is \<open>accumulated\<close> when \<open>resumed\<close> is \<open>None\<close> and
  \<open>accumulated + (now - resumed_at)\<close> otherwise; \<open>pause\<close> stores that elapsed time
  with \<open>None\<close>; \<open>resume\<close> keeps \<open>accumulated\<close> and stores the clock reading.
  All three return.
\<close>

theorem ContextualTimer_tracked:
  assumes "resolve_context d ctx = Inr c" and "contextual_times self c = Some (accumulated, resumed)"
  shows "ContextualTimer_call d now self ctx = Inr (spec_elapsed (accumulated, resumed) now) \<and>
         pause d now self ctx =
           Inr (self\<lparr>contextual_times :=
                  (contextual_times self)
                    (c \<mapsto> (spec_elapsed (accumulated, resumed) now, None))\<rparr>) \<and>
         resume d now self ctx =
           Inr (self\<lparr>contextual_times :=
                  (contextual_times self)(c \<mapsto> (accumulated, Some now))\<rparr>)"
  using assms
  by (simp add: call_resolved pause_resolved resume_resolved get_times_tracked)

theorem ContextualTimer_tracked_witness:
  "resolve_context base_detect_context (Some (1::nat)) = Inr 1 \<and>
   contextual_times \<lparr>running = (None :: nat gen option),
                     contextual_times = [1 \<mapsto> (5, Some 2)]\<rparr> 1 = Some (5, Some 2) \<and>
   ContextualTimer_call base_detect_context 10
     \<lparr>running = (None :: nat gen option), contextual_times = [(1::nat) \<mapsto> (5, Some 2)]\<rparr>
     (Some 1) = Inr 13 \<and>
   pause base_detect_context 10
     \<lparr>running = (None :: nat gen option), contextual_times = [(1::nat) \<mapsto> (5, Some 2)]\<rparr>
     (Some 1) = Inr \<lparr>running = None, contextual_times = [1 \<mapsto> (13, None)]\<rparr> \<and>
   resume base_detect_context 10
     \<lparr>running = (None :: nat gen option), contextual_times = [(1::nat) \<mapsto> (5, Some 2)]\<rparr>
     (Some 1) = Inr \<lparr>running = None, contextual_times = [1 \<mapsto> (5, Some 10)]\<rparr>"
proof -
  have h1: "resolve_context base_detect_context (Some (1::nat)) = Inr 1"
    by (simp add: resolve_context_def)
  have h2: "contextual_times \<lparr>running = (None :: nat gen option),
                     contextual_times = [(1::nat) \<mapsto> (5, Some 2)]\<rparr> 1 = Some (5, Some 2)"
    by simp
  show ?thesis
    using h1 ContextualTimer_tracked [OF h1 h2, of 10] by simp
qed

text \<open>
  C5.  For every timer and context: \<open>pause\<close> at a moment when the elapsed time is
  \<open>E\<close> returns, \<open>resume\<close> at any later reading \<open>t2\<close> returns, and once the
  clock has advanced by \<open>delta\<close> from there the elapsed time is \<open>E + delta\<close>.
\<close>

theorem pause_resume_adds_delta:
  "\<exists>E self1 self2.
     ContextualTimer_call d t1 self (Some c) = Inr E \<and>
     pause d t1 self (Some c) = Inr self1 \<and>
     resume d t2 self1 (Some c) = Inr self2 \<and>
     ContextualTimer_call d (t2 + delta) self2 (Some c) = Inr (E + delta)"
  by (simp add: call_resolved pause_resolved resume_resolved resolve_explicit get_times_update)

text \<open>
  The switch \<open>resume(a); pause(a); resume(b)\<close> with a clock that advances by \<open>h\<close>
  at each step: right after the third step \<open>a\<close> has \<open>h\<close> and another context
  \<open>b\<close> has 0.
\<close>

lemma fiber_switch_scenario:
  "\<exists>self'. timer_ops d [Resume a t, Pause a (t + h), Resume b (t + 2 * h)]
              (ContextualTimer_new :: ('v, 'c) contextual_timer) = Inr self' \<and>
           ContextualTimer_call d (t + 2 * h) self' (Some a) = Inr h \<and>
           ContextualTimer_call d (t + 2 * h) self' (Some b) = Inr (if a = b then h else 0)"
  by (simp add: call_resolved pause_resolved resume_resolved resolve_explicit get_times_def
        ContextualTimer_new_def)

section \<open>Profiler.result\<close>

lemma result_started:
  assumes "cpu_time_started self = Some cpu0" and "wall_time_started self = Some wall0"
  shows "Profiler_result cpu wall self =
           (Inr (stats self, max 0 (cpu - cpu0), max 0 (wall - wall0)), self)"
  using assms by (simp add: Profiler_result_def result_times_def getattr_def)

lemma result_not_started:
  assumes "cpu_time_started self = None \<or> wall_time_started self = None"
  shows "Profiler_result cpu wall self = (Inr (stats self, 0, 0), self)"
  using assms
  by (auto simp add: Profiler_result_def result_times_def getattr_def split: option.split)

lemma Profiler_start_fields:
  "cpu_time_started (snd (Profiler_start clear run cpu0 wall0 self)) = Some cpu0 \<and>
   wall_time_started (snd (Profiler_start clear run cpu0 wall0 self)) = Some wall0 \<and>
   stats (snd (Profiler_start clear run cpu0 wall0 self)) = clear (stats self)"
  by (simp add: Profiler_start_def Runnable_start_def split: prod.split sum.split error.split)

lemma Runnable_stop_fields:
  "cpu_time_started (snd (Runnable_stop self)) = cpu_time_started self \<and>
   wall_time_started (snd (Runnable_stop self)) = wall_time_started self \<and>
   stats (snd (Runnable_stop self)) = stats self"
  by (simp add: Runnable_stop_def split: option.split sum.split error.split)

text \<open>
  C7.  \<open>result\<close> returns on every profiler and at all clock readings, with the
  statistics of the profiler and two times that are not negative, and leaves the profiler
  as it was.  On a profiler that was only constructed both times are 0, and so they are
  whenever one of the two start attributes does not exist.  On every profiler that has
  the start attributes \<open>c\<close> and \<open>w\<close>, running or not, the times are
  \<open>max(0, cpu - c)\<close> and \<open>max(0, wall - w)\<close>; \<open>start\<close> (whether or not it
  raises) sets them to its readings \<open>cpu0\<close> and \<open>wall0\<close>, and \<open>stop\<close> keeps
  them, so this is what \<open>result\<close> returns after \<open>start\<close> and after
  \<open>start(); stop()\<close>.
\<close>

theorem Profiler_result_never_raises:
  fixes self :: "('v, 'st, 'm) profiler_scheme"
  shows
  "(\<exists>cpu_time wall_time.
      Profiler_result cpu wall self = (Inr (stats self, cpu_time, wall_time), self) \<and>
      0 \<le> cpu_time \<and> 0 \<le> wall_time) \<and>
   Profiler_result cpu wall (Profiler_init base ign st :: ('v, 'st) profiler) =
     (Inr (st, 0, 0), Profiler_init base ign st) \<and>
   Profiler_result cpu wall (snd (Profiler_start clear run cpu0 wall0 self)) =
     (Inr (clear (stats self), max 0 (cpu - cpu0), max 0 (wall - wall0)),
      snd (Profiler_start clear run cpu0 wall0 self)) \<and>
   (cpu_time_started self = Some c \<and> wall_time_started self = Some w \<longrightarrow>
      Profiler_result cpu wall self =
        (Inr (stats self, max 0 (cpu - c), max 0 (wall - w)), self)) \<and>
   (cpu_time_started self = None \<or> wall_time_started self = None \<longrightarrow>
      Profiler_result cpu wall self = (Inr (stats self, 0, 0), self)) \<and>
   Profiler_result cpu wall (snd (Runnable_stop (snd (Profiler_start clear run cpu0 wall0 self)))) =
     (Inr (clear (stats self), max 0 (cpu - cpu0), max 0 (wall - wall0)),
      snd (Runnable_stop (snd (Profiler_start clear run cpu0 wall0 self))))"
proof (intro conjI impI)
  show "\<exists>cpu_time wall_time.
      Profiler_result cpu wall self = (Inr (stats self, cpu_time, wall_time), self) \<and>
      0 \<le> cpu_time \<and> 0 \<le> wall_time"
  proof (cases "cpu_time_started self = None \<or> wall_time_started self = None")
    case True
    then have "Profiler_result cpu wall self = (Inr (stats self, 0, 0), self)"
      by (rule result_not_started)
    then show ?thesis by simp
  next
    case False
    then obtain c w where "cpu_time_started self = Some c" "wall_time_started self = Some w"
      by auto
    then have "Profiler_result cpu wall self =
                 (Inr (stats self, max 0 (cpu - c), max 0 (wall - w)), self)"
      by (rule result_started)
    then show ?thesis by simp
  qed
  show "Profiler_result cpu wall (Profiler_init base ign st :: ('v, 'st) profiler) =
     (Inr (st, 0, 0), Profiler_init base ign st)"
    using result_not_started [of "Profiler_init base ign st :: ('v, 'st) profiler" cpu wall]
    by (simp add: Profiler_init_def)
  show "Profiler_result cpu wall (snd (Profiler_start clear run cpu0 wall0 self)) =
     (Inr (clear (stats self), max 0 (cpu - cpu0), max 0 (wall - wall0)),
      snd (Profiler_start clear run cpu0 wall0 self))"
    using result_started [of "snd (Profiler_start clear run cpu0 wall0 self)" cpu0 wall0 cpu wall]
      Profiler_start_fields [of clear run cpu0 wall0 self]
    by simp
  show "Profiler_result cpu wall self =
        (Inr (stats self, max 0 (cpu - c), max 0 (wall - w)), self)"
    if "cpu_time_started self = Some c \<and> wall_time_started self = Some w"
    using that by (simp add: result_started)
  show "Profiler_result cpu wall self = (Inr (stats self, 0, 0), self)"
    if "cpu_time_started self = None \<or> wall_time_started self = None"
    using that by (rule result_not_started)
  show "Profiler_result cpu wall
          (snd (Runnable_stop (snd (Profiler_start clear run cpu0 wall0 self)))) =
     (Inr (clear (stats self), max 0 (cpu - cpu0), max 0 (wall - wall0)),
      snd (Runnable_stop (snd (Profiler_start clear run cpu0 wall0 self))))"
    using result_started
            [of "snd (Runnable_stop (snd (Profiler_start clear run cpu0 wall0 self)))"
                cpu0 wall0 cpu wall]
      Profiler_start_fields [of clear run cpu0 wall0 self]
      Runnable_stop_fields [of "snd (Profiler_start clear run cpu0 wall0 self)"]
    by simp
qed

lemma example_start_stop:
  "snd (Runnable_stop (snd (Profiler_start (\<lambda>st. 0) Timer_run 10 100
          (Profiler_init None {} (5::nat) :: (nat, nat) profiler)))) =
   \<lparr>running = None, base_frame = None, ignoring_codes = {}, stats = 0,
    cpu_time_started = Some 10, wall_time_started = Some 100\<rparr>"
  by (simp add: Profiler_start_def Profiler_init_def Runnable_start_def Runnable_stop_def
        Timer_run_def is_running_def)

theorem Profiler_result_never_raises_witness:
  "cpu_time_started \<lparr>running = (None :: nat gen option), base_frame = None, ignoring_codes = {},
      stats = 0::nat, cpu_time_started = Some 10, wall_time_started = Some 100\<rparr> = Some 10 \<and>
   wall_time_started \<lparr>running = (None :: nat gen option), base_frame = None, ignoring_codes = {},
      stats = 0::nat, cpu_time_started = Some 10, wall_time_started = Some 100\<rparr> = Some 100 \<and>
   Profiler_result 12 103
     \<lparr>running = (None :: nat gen option), base_frame = None, ignoring_codes = {},
      stats = 0::nat, cpu_time_started = Some 10, wall_time_started = Some 100\<rparr> =
     (Inr (0, 2, 3),
      \<lparr>running = None, base_frame = None, ignoring_codes = {},
       stats = 0, cpu_time_started = Some 10, wall_time_started = Some 100\<rparr>) \<and>
   Profiler_result 12 103
     (snd (Runnable_stop (snd (Profiler_start (\<lambda>st. 0) Timer_run 10 100
        (Profiler_init None {} (5::nat) :: (nat, nat) profiler))))) =
     (Inr (0, 2, 3),
      \<lparr>running = None, base_frame = None, ignoring_codes = {},
       stats = 0, cpu_time_started = Some 10, wall_time_started = Some 100\<rparr>) \<and>
   Profiler_result 7 103
     (snd (Profiler_start (\<lambda>st. 0) Timer_run 10 100
        (Profiler_init None {} (5::nat) :: (nat, nat) profiler))) =
     (Inr (0, 0, 3),
      snd (Profiler_start (\<lambda>st. 0) Timer_run 10 100
        (Profiler_init None {} (5::nat) :: (nat, nat) profiler))) \<and>
   (cpu_time_started (Profiler_init None {} (5::nat) :: (nat, nat) profiler) = None \<or>
    wall_time_started (Profiler_init None {} (5::nat) :: (nat, nat) profiler) = None) \<and>
   Profiler_result 7 103 (Profiler_init None {} (5::nat) :: (nat, nat) profiler) =
     (Inr (5, 0, 0), Profiler_init None {} 5)"
proof -
  let ?stopped = "\<lparr>running = (None :: nat gen option), base_frame = None, ignoring_codes = {},
      stats = 0::nat, cpu_time_started = Some 10, wall_time_started = Some 100\<rparr>"
  let ?new = "Profiler_init None {} (5::nat) :: (nat, nat) profiler"
  have h1: "cpu_time_started ?stopped = Some 10 \<and> wall_time_started ?stopped = Some 100"
    by simp
  have h2: "cpu_time_started ?new = None \<or> wall_time_started ?new = None"
    by (simp add: Profiler_init_def)
  note t = Profiler_result_never_raises
  have c1: "Profiler_result 12 103 ?stopped = (Inr (0, 2, 3), ?stopped)"
    using h1 t [where self = ?stopped and cpu = 12 and wall = 103 and c = 10 and w = 100]
    by simp
  have c2: "Profiler_result 12 103
     (snd (Runnable_stop (snd (Profiler_start (\<lambda>st. 0) Timer_run 10 100 ?new)))) =
     (Inr (0, 2, 3), ?stopped)"
    using t [where self = ?new and cpu = 12 and wall = 103 and clear = "\<lambda>st. 0"
               and run = Timer_run and ?cpu0.0 = 10 and ?wall0.0 = 100]
    by (simp add: example_start_stop)
  have c3: "Profiler_result 7 103 (snd (Profiler_start (\<lambda>st. 0) Timer_run 10 100 ?new)) =
     (Inr (0, 0, 3), snd (Profiler_start (\<lambda>st. 0) Timer_run 10 100 ?new))"
    using t [where self = ?new and cpu = 7 and wall = 103 and clear = "\<lambda>st. 0"
               and run = Timer_run and ?cpu0.0 = 10 and ?wall0.0 = 100]
    by simp
  have c4: "Profiler_result 7 103 ?new = (Inr (5, 0, 0), Profiler_init None {} 5)"
    using h2 t [where self = ?new and cpu = 7 and wall = 103]
    by (simp add: Profiler_init_def)
  show ?thesis
    using h1 h2 c1 c2 c3 c4 by simp
qed

section \<open>The samplers' handlers\<close>

lemma fold_record_call: "fold record_call fs acc = acc @ fs"
  by (induction fs arbitrary: acc) (simp_all add: record_call_def)

lemma update_present_keys:
  "k \<in> fst ` set al \<Longrightarrow> map fst (AList.update k v al) = map fst al"
  by (simp add: update_keys)

text \<open>
  C8.  When the clock reads less than \<open>interval\<close> past \<open>sampled_at\<close>, the callback
  leaves the sampler and the profiler as they were: no call of \<open>sample\<close>, no new
  timestamp.  Otherwise \<open>sampled_at\<close> becomes the clock reading and \<open>sample\<close> is
  applied to each value of the dictionary of current frames in which the calling thread
  maps to the frame of the event; the other threads keep their frames, the keys stay
  distinct (the same keys when the calling thread is among them), and the calls of
  \<open>sample\<close> are the values of that dictionary, one for each key.
\<close>

theorem TracingSampler_profile_throttle:
  "(clock - sampled_at self < interval self \<longrightarrow>
      TracingSampler_profile sample cf ident clock self p frame = (self, p)) \<and>
   (\<not> clock - sampled_at self < interval self \<longrightarrow>
      TracingSampler_profile sample cf ident clock self p frame =
        (self\<lparr>sampled_at := clock\<rparr>,
         fold sample (values_of (AList.update ident frame cf)) p) \<and>
      map_of (AList.update ident frame cf) = (map_of cf)(ident \<mapsto> frame) \<and>
      (distinct (map fst cf) \<longrightarrow> distinct (map fst (AList.update ident frame cf))) \<and>
      length (values_of (AList.update ident frame cf)) =
        length (map fst (AList.update ident frame cf)) \<and>
      (ident \<in> fst ` set cf \<longrightarrow> map fst (AList.update ident frame cf) = map fst cf) \<and>
      snd (TracingSampler_profile record_call cf ident clock self [] frame) =
        values_of (AList.update ident frame cf))"
  by (simp add: TracingSampler_profile_def update_conv' distinct_update values_of_def
        fold_record_call update_present_keys)

theorem TracingSampler_profile_throttle_witness:
  "(1 / 2000 :: real) - sampled_at \<lparr>running = (None :: nat gen option), interval = 1 / 1000, sampled_at = 0\<rparr>
     < interval \<lparr>running = (None :: nat gen option), interval = 1 / 1000, sampled_at = 0\<rparr> \<and>
   TracingSampler_profile record_call [(1, fr1), (2, fr2)] 2 (1 / 2000)
     \<lparr>running = (None :: nat gen option), interval = 1 / 1000, sampled_at = 0\<rparr> [] fr3 =
     (\<lparr>running = None, interval = 1 / 1000, sampled_at = 0\<rparr>, []) \<and>
   \<not> (1 / 500 :: real) - sampled_at \<lparr>running = (None :: nat gen option), interval = 1 / 1000, sampled_at = 0\<rparr>
     < interval \<lparr>running = (None :: nat gen option), interval = 1 / 1000, sampled_at = 0\<rparr> \<and>
   distinct (map fst [(1::nat, fr1), (2, fr2)]) \<and>
   (2::nat) \<in> fst ` set [(1::nat, fr1), (2, fr2)] \<and>
   TracingSampler_profile record_call [(1, fr1), (2, fr2)] 2 (1 / 500)
     \<lparr>running = (None :: nat gen option), interval = 1 / 1000, sampled_at = 0\<rparr> [] fr3 =
     (\<lparr>running = None, interval = 1 / 1000, sampled_at = 1 / 500\<rparr>, [fr1, fr3])"
  using TracingSampler_profile_throttle
          [of "1 / 2000" "\<lparr>running = (None :: nat gen option), interval = 1 / 1000, sampled_at = 0\<rparr>"
              record_call "[(1, fr1), (2, fr2)]" 2 "[]" fr3]
        TracingSampler_profile_throttle
          [of "1 / 500" "\<lparr>running = (None :: nat gen option), interval = 1 / 1000, sampled_at = 0\<rparr>"
              record_call "[(1, fr1), (2, fr2)]" 2 "[]" fr3]
  by (simp add: values_of_def record_call_def)





end
